theory Spec2Isabelle
  imports Main "HOL-Library.AList" "HOL-Library.Product_Lexorder"
begin

section \<open>Bundle size measurement (report-bundle-size.js)\<close>

text \<open>
  A JavaScript object is modelled by the association list of its own properties, in the
  order of \<open>Object.keys\<close>, with pairwise distinct keys. In the measuring part a property
  write is \<open>AList.update\<close> (overwrite in place, or append). Reads of a property under
  a computed key, which also find what an object inherits from its prototype, occur in
  the diff only and are modelled there.
\<close>

subsection \<open>Data model\<close>

record size_entry =
  raw :: int
  gzip :: int

text \<open>
  The build output store as the script sees it: a resolved path is absent, a readable
  text file, or something \<open>existsSync\<close> reports but \<open>readFileSync\<close> cannot read
  (a directory, a file without read permission). The text of a file is the sequence of
  UTF-8 bytes of the decoded content, so that \<open>Buffer.byteLength\<close> is its length.
\<close>

datatype fs_node = File string | Unreadable

datatype error = ReadError string

text \<open>
  What lies outside the repository is a parameter: \<open>joinRoot\<close> is
  \<open>path.join(nextMetaRoot, _)\<close>, \<open>store\<close> the file system, \<open>gzSize\<close> the
  \<open>gzip-size\<close> package.
\<close>

record build_env =
  joinRoot :: "string \<Rightarrow> string"
  store :: "string \<Rightarrow> fs_node option"
  gzSize :: "string \<Rightarrow> nat"

text \<open>
  The process-wide \<open>memoryCache\<close>, together with a log of the paths handed to
  \<open>readFileSync\<close> and \<open>gzSize.sync\<close> with success (the log is not in the source; it
  records the effect that the cache is there to avoid).
\<close>

record measurer =
  memoryCache :: "string \<rightharpoonup> int \<times> int"
  reads :: "string list"

definition emptyMeasurer :: measurer where
  "emptyMeasurer = \<lparr>memoryCache = Map.empty, reads = []\<rparr>"

subsection \<open>getScriptSize and getScriptSizes\<close>

definition getScriptSize ::
  "build_env \<Rightarrow> measurer \<Rightarrow> string \<Rightarrow> error + ((int \<times> int) \<times> measurer)" where
  "getScriptSize env s scriptPath =
     (let p = joinRoot env scriptPath in
      case memoryCache s p of
        Some (rawSize, gzipSize) \<Rightarrow> Inr ((rawSize, gzipSize), s)
      | None \<Rightarrow>
          (case store env p of
             None \<Rightarrow> Inr ((0, 0), s\<lparr>memoryCache := (memoryCache s)(p \<mapsto> (0, 0))\<rparr>)
           | Some Unreadable \<Rightarrow> Inl (ReadError p)
           | Some (File textContent) \<Rightarrow>
               (let rawSize = int (length textContent);
                    gzipSize = int (gzSize env textContent)
                in Inr ((rawSize, gzipSize),
                        s\<lparr>memoryCache := (memoryCache s)(p \<mapsto> (rawSize, gzipSize)),
                          reads := reads s @ [p]\<rparr>))))"

fun reduceSizes ::
  "build_env \<Rightarrow> size_entry \<Rightarrow> measurer \<Rightarrow> string list \<Rightarrow> error + (size_entry \<times> measurer)" where
  "reduceSizes env acc s [] = Inr (acc, s)"
| "reduceSizes env acc s (scriptPath # rest) =
     (case getScriptSize env s scriptPath of
        Inl e \<Rightarrow> Inl e
      | Inr ((rawSize, gzipSize), s') \<Rightarrow>
          reduceSizes env \<lparr>raw = raw acc + rawSize, gzip = gzip acc + gzipSize\<rparr> s' rest)"

definition getScriptSizes ::
  "build_env \<Rightarrow> measurer \<Rightarrow> string list \<Rightarrow> error + (size_entry \<times> measurer)" where
  "getScriptSizes env s scriptPaths = reduceSizes env \<lparr>raw = 0, gzip = 0\<rparr> s scriptPaths"

subsection \<open>Per-page totals and per-file sizes\<close>

text \<open>
  \<open>allAppDirSizes\<close>: the reduce over \<open>Object.entries(appDirPages)\<close>, each page summed
  over its script paths that \<open>globalAppDirBundle\<close> does not include.
\<close>

fun reducePages ::
  "build_env \<Rightarrow> string list \<Rightarrow> (string \<times> size_entry) list \<Rightarrow> measurer \<Rightarrow>
   (string \<times> string list) list \<Rightarrow> error + ((string \<times> size_entry) list \<times> measurer)" where
  "reducePages env globalAppDirBundle acc s [] = Inr (acc, s)"
| "reducePages env globalAppDirBundle acc s ((pagePath, scriptPaths) # rest) =
     (case getScriptSizes env s
             (filter (\<lambda>scriptPath. scriptPath \<notin> set globalAppDirBundle) scriptPaths) of
        Inl e \<Rightarrow> Inl e
      | Inr (scriptSizes, s') \<Rightarrow>
          reducePages env globalAppDirBundle (AList.update pagePath scriptSizes acc) s' rest)"

definition allAppDirSizes ::
  "build_env \<Rightarrow> string list \<Rightarrow> measurer \<Rightarrow> (string \<times> string list) list \<Rightarrow>
   error + ((string \<times> size_entry) list \<times> measurer)" where
  "allAppDirSizes env globalAppDirBundle s appDirPages =
     reducePages env globalAppDirBundle [] s appDirPages"

text \<open>\<open>new Set(xs)\<close> iterates in the order of first insertion.\<close>

fun newSet :: "'a list \<Rightarrow> 'a list" where
  "newSet [] = []"
| "newSet (x # xs) = x # newSet (removeAll x xs)"

fun fileSizesLoop ::
  "build_env \<Rightarrow> (string \<times> size_entry) list \<Rightarrow> measurer \<Rightarrow> string list \<Rightarrow>
   error + ((string \<times> size_entry) list \<times> measurer)" where
  "fileSizesLoop env acc s [] = Inr (acc, s)"
| "fileSizesLoop env acc s (file # rest) =
     (case getScriptSize env s file of
        Inl e \<Rightarrow> Inl e
      | Inr ((r, g), s') \<Rightarrow>
          fileSizesLoop env (AList.update file \<lparr>raw = r, gzip = g\<rparr> acc) s' rest)"

text \<open>
  The measuring part of the main script, in the order of the source: the global bundle,
  the pages, then every file of \<open>allFiles\<close>, all on one cache that starts empty.
\<close>

record measured =
  globalAppDirBundleSizes :: size_entry
  pageSizes :: "(string \<times> size_entry) list"
  fileSizes :: "(string \<times> size_entry) list"

definition measureAll ::
  "build_env \<Rightarrow> string list \<Rightarrow> (string \<times> string list) list \<Rightarrow> error + (measured \<times> measurer)" where
  "measureAll env globalAppDirBundle appDirPages =
     (case getScriptSizes env emptyMeasurer globalAppDirBundle of
        Inl e \<Rightarrow> Inl e
      | Inr (g, s1) \<Rightarrow>
          (case allAppDirSizes env globalAppDirBundle s1 appDirPages of
             Inl e \<Rightarrow> Inl e
           | Inr (pages, s2) \<Rightarrow>
               (case fileSizesLoop env [] s2
                       (newSet (globalAppDirBundle @ concat (map snd appDirPages))) of
                  Inl e \<Rightarrow> Inl e
                | Inr (files, s3) \<Rightarrow>
                    Inr (\<lparr>globalAppDirBundleSizes = g, pageSizes = pages, fileSizes = files\<rparr>,
                         s3))))"

text \<open>
  The size of a script path read off the store directly, without the cache: the
  reference that the cached measurement is compared with.
\<close>

definition sizeAt :: "build_env \<Rightarrow> string \<Rightarrow> int \<times> int" where
  "sizeAt env p =
     (case store env p of
        Some (File textContent) \<Rightarrow> (int (length textContent), int (gzSize env textContent))
      | _ \<Rightarrow> (0, 0))"

definition total :: "build_env \<Rightarrow> string list \<Rightarrow> size_entry" where
  "total env scriptPaths =
     \<lparr>raw = sum_list (map (\<lambda>q. fst (sizeAt env (joinRoot env q))) scriptPaths),
      gzip = sum_list (map (\<lambda>q. snd (sizeAt env (joinRoot env q))) scriptPaths)\<rparr>"

text \<open>The states of the cache that a run can be in: those that calls of
  \<open>getScriptSize\<close> produce from the empty cache.\<close>

inductive reachable :: "build_env \<Rightarrow> measurer \<Rightarrow> bool" for env where
  start: "reachable env emptyMeasurer"
| step: "reachable env s \<Longrightarrow> getScriptSize env s q = Inr (v, s') \<Longrightarrow> reachable env s'"

inductive later :: "build_env \<Rightarrow> measurer \<Rightarrow> measurer \<Rightarrow> bool" for env where
  same: "later env s s"
| call: "later env s t \<Longrightarrow> getScriptSize env t q = Inr (v, t') \<Longrightarrow> later env s t'"

definition readsOk :: "measurer \<Rightarrow> bool" where
  "readsOk s \<longleftrightarrow> distinct (reads s) \<and> set (reads s) \<subseteq> dom (memoryCache s)"

definition cacheOk :: "build_env \<Rightarrow> measurer \<Rightarrow> bool" where
  "cacheOk env s \<longleftrightarrow>
     (\<forall>p v. memoryCache s p = Some v \<longrightarrow> store env p \<noteq> Some Unreadable \<and> v = sizeAt env p)"

section \<open>Route sources (resolveSourceFile)\<close>

text \<open>
  \<open>process.cwd()\<close>, \<open>path.join\<close>, \<open>path.relative\<close> and \<open>fs.existsSync\<close> are
  parameters.
\<close>

record route_env =
  cwd :: string
  pathJoin :: "string \<Rightarrow> string \<Rightarrow> string"
  pathRelative :: "string \<Rightarrow> string \<Rightarrow> string"
  existsSync :: "string \<Rightarrow> bool"

definition exts :: "string list" where
  "exts = [''tsx'', ''ts'', ''jsx'', ''js'', ''mdx'']"

text \<open>\<open>sourceLike.replace(/^\//, '')\<close>: one leading slash is dropped.\<close>

fun stripSlash :: "string \<Rightarrow> string" where
  "stripSlash (c # cs) = (if c = CHR ''/'' then cs else c # cs)"
| "stripSlash [] = []"

text \<open>One \<open>for (const ext of exts)\<close> loop; \<open>suffix\<close> builds the name tried for an
  extension.\<close>

fun probe :: "route_env \<Rightarrow> (string \<Rightarrow> string) \<Rightarrow> string list \<Rightarrow> string option" where
  "probe env suffix [] = None"
| "probe env suffix (ext # rest) =
     (let candidate = pathJoin env (cwd env) (suffix ext)
      in if existsSync env candidate then Some (pathRelative env (cwd env) candidate)
         else probe env suffix rest)"

definition resolveSourceFile :: "route_env \<Rightarrow> string \<Rightarrow> string option" where
  "resolveSourceFile env sourceLike =
     (let rel = pathJoin env ''app'' (stripSlash sourceLike)
      in case probe env (\<lambda>ext. rel @ ''.'' @ ext) exts of
           Some found \<Rightarrow> Some found
         | None \<Rightarrow> probe env (\<lambda>ext. rel @ ''/route.'' @ ext) exts)"

record route_info =
  source :: string
  sourceFile :: "string option"

text \<open>\<open>routeToSource\<close>: the reduce over \<open>Object.entries(appPathRoutes)\<close>.\<close>

fun routeToSource ::
  "route_env \<Rightarrow> (string \<times> route_info) list \<Rightarrow> (string \<times> string) list \<Rightarrow>
   (string \<times> route_info) list" where
  "routeToSource env acc [] = acc"
| "routeToSource env acc ((sourceLike, routePath) # rest) =
     routeToSource env
       (AList.update routePath
          \<lparr>source = sourceLike, sourceFile = resolveSourceFile env sourceLike\<rparr> acc) rest"

section \<open>Documents and the diff (logDiffs)\<close>

text \<open>
  A parsed analysis document. The documents this program writes to
  \<open>__bundle_analysis.json\<close> are objects nested over integers, so a value is a number
  or an object; \<open>null\<close> and \<open>undefined\<close> are \<open>None\<close> of \<open>jsval option\<close>.
  \<open>Num n\<close> is what \<open>JSON.parse\<close> makes of the integer literal \<open>n\<close>: the double
  nearest to \<open>n\<close> (see \<open>roundD\<close>). An object is the list of its own properties; its
  prototype is \<open>Object.prototype\<close>.
\<close>

datatype jsval = Num int | Obj "(string \<times> jsval) list"

subsection \<open>Property reads\<close>

text \<open>
  What \<open>x[key]\<close> finds under a computed key: nothing, an own property, or a property
  inherited from the prototype. The inherited properties are built-in functions, and for
  \<open>__proto__\<close> the prototype object itself; all of them are truthy and none has a
  property \<open>raw\<close> or \<open>gzip\<close>.
\<close>

datatype found = Undefined | Val jsval | Builtin

text \<open>The property names of \<open>Object.prototype\<close> and of \<open>Number.prototype\<close>.\<close>

definition objectProtoNames :: "string list" where
  "objectProtoNames =
     [''constructor'', ''__defineGetter__'', ''__defineSetter__'', ''hasOwnProperty'',
      ''__lookupGetter__'', ''__lookupSetter__'', ''isPrototypeOf'',
      ''propertyIsEnumerable'', ''toString'', ''valueOf'', ''__proto__'', ''toLocaleString'']"

definition numberProtoNames :: "string list" where
  "numberProtoNames = [''toExponential'', ''toFixed'', ''toPrecision''] @ objectProtoNames"

fun getProp :: "jsval \<Rightarrow> string \<Rightarrow> found" where
  "getProp (Obj kvs) k =
     (case map_of kvs k of
        Some v \<Rightarrow> Val v
      | None \<Rightarrow> (if k \<in> set objectProtoNames then Builtin else Undefined))"
| "getProp (Num n) k = (if k \<in> set numberProtoNames then Builtin else Undefined)"

fun truthy :: "jsval \<Rightarrow> bool" where
  "truthy (Num n) = (n \<noteq> 0)"
| "truthy (Obj kvs) = True"

fun truthyFound :: "found \<Rightarrow> bool" where
  "truthyFound Undefined = False"
| "truthyFound (Val v) = truthy v"
| "truthyFound Builtin = True"

fun truthyOpt :: "jsval option \<Rightarrow> bool" where
  "truthyOpt None = False"
| "truthyOpt (Some v) = truthy v"

text \<open>
  The members of a document that the code reads by name. None of the four names is
  inherited by an object or a number, so \<open>doc?.__files\<close> and its like find own
  properties only.
\<close>

datatype member = Global | Files | Pages | Routes

fun memberName :: "member \<Rightarrow> string" where
  "memberName Global = ''__global''"
| "memberName Files = ''__files''"
| "memberName Pages = ''__pages''"
| "memberName Routes = ''__routes''"

fun docMember :: "jsval option \<Rightarrow> member \<Rightarrow> jsval option" where
  "docMember None m = None"
| "docMember (Some (Num n)) m = None"
| "docMember (Some (Obj kvs)) m = map_of kvs (memberName m)"

text \<open>\<open>a || b\<close>, for a \<open>b\<close> that is defined.\<close>

fun orElse :: "jsval option \<Rightarrow> jsval \<Rightarrow> jsval" where
  "orElse None b = b"
| "orElse (Some a) b = (if truthy a then a else b)"

text \<open>\<open>Object.keys\<close>: the own keys; a number has none.\<close>

fun objectKeys :: "jsval \<Rightarrow> string list" where
  "objectKeys (Obj kvs) = map fst kvs"
| "objectKeys (Num n) = []"

text \<open>
  \<open>x.raw\<close> and \<open>x.gzip\<close>, which the code reads from truthy values only. Neither
  name is inherited, so an object gives its own property, and a number or a built-in
  gives \<open>undefined\<close>.
\<close>

datatype size_field = RawField | GzipField

fun fieldName :: "size_field \<Rightarrow> string" where
  "fieldName RawField = ''raw''"
| "fieldName GzipField = ''gzip''"

fun sizeProp :: "found \<Rightarrow> size_field \<Rightarrow> jsval option" where
  "sizeProp (Val (Obj kvs)) f = map_of kvs (fieldName f)"
| "sizeProp (Val (Num n)) f = None"
| "sizeProp Builtin f = None"
| "sizeProp Undefined f = None"

subsection \<open>Numbers\<close>

text \<open>
  JavaScript numbers are IEEE doubles. The numbers met here are integers, infinities and
  \<open>NaN\<close>; \<open>Fin n\<close> is used for integers \<open>n\<close> that are doubles.
\<close>

datatype jsnum = NaN | Fin int | PInf | NInf

text \<open>The number of binary digits of a positive integer.\<close>

function bits :: "int \<Rightarrow> nat" where
  "bits a = (if a \<le> 0 then 0 else Suc (bits (a div 2)))"
  by pat_completeness auto
termination
  by (relation "measure nat") auto

declare bits.simps [simp del]

text \<open>
  The double nearest to an integer, ties to the even significand: integers below
  \<open>2^53\<close> in magnitude are doubles; a larger one keeps its 53 leading binary digits,
  rounded; from \<open>2^1024\<close> on the result is an infinity.
\<close>

definition roundD :: "int \<Rightarrow> jsnum" where
  "roundD n =
     (let a = \<bar>n\<bar> in
      if a < 2 ^ 53 then Fin n
      else
        (let e = bits a - 53;
             q = a div 2 ^ e;
             r = a mod 2 ^ e;
             q' = (if 2 ^ e < 2 * r \<or> (2 * r = 2 ^ e \<and> odd q) then q + 1 else q);
             m = q' * 2 ^ e
         in if 2 ^ 1024 \<le> m then (if 0 < n then PInf else NInf)
            else Fin (if 0 < n then m else - m)))"

datatype js_error = TypeError

text \<open>
  \<open>ToNumber\<close>: \<open>undefined\<close> gives \<open>NaN\<close>. An object is converted through
  \<open>valueOf\<close> and \<open>toString\<close>: with the inherited \<open>toString\<close> the result is
  \<open>NaN\<close>; an own property \<open>toString\<close> of a parsed object is not callable, and then
  the conversion throws a \<open>TypeError\<close>.
\<close>

fun toNumber :: "jsval option \<Rightarrow> js_error + jsnum" where
  "toNumber None = Inr NaN"
| "toNumber (Some (Num n)) = Inr (roundD n)"
| "toNumber (Some (Obj kvs)) =
     (if ''toString'' \<in> set (map fst kvs) then Inl TypeError else Inr NaN)"

text \<open>Subtraction of two numbers, correctly rounded.\<close>

fun minusNum :: "jsnum \<Rightarrow> jsnum \<Rightarrow> jsnum" where
  "minusNum (Fin a) (Fin b) = roundD (a - b)"
| "minusNum NaN y = NaN"
| "minusNum x NaN = NaN"
| "minusNum PInf PInf = NaN"
| "minusNum NInf NInf = NaN"
| "minusNum PInf y = PInf"
| "minusNum NInf y = NInf"
| "minusNum (Fin a) PInf = NInf"
| "minusNum (Fin a) NInf = PInf"

text \<open>\<open>a - b\<close> on two values: the left operand is converted first.\<close>

definition sub :: "jsval option \<Rightarrow> jsval option \<Rightarrow> js_error + jsnum" where
  "sub a b =
     (case toNumber a of
        Inl e \<Rightarrow> Inl e
      | Inr x \<Rightarrow> (case toNumber b of Inl e \<Rightarrow> Inl e | Inr y \<Rightarrow> Inr (minusNum x y)))"

text \<open>
  Whether converting a value to a string throws, as a template literal does: like
  \<open>ToNumber\<close>, \<open>ToString\<close> throws exactly for an object with an own property
  \<open>toString\<close>.
\<close>

fun unconvertible :: "jsval option \<Rightarrow> bool" where
  "unconvertible None = False"
| "unconvertible (Some (Num n)) = False"
| "unconvertible (Some (Obj kvs)) = (''toString'' \<in> set (map fst kvs))"

text \<open>\<open>n !== 0\<close>\<close>

fun notZero :: "jsnum \<Rightarrow> bool" where
  "notZero (Fin n) = (n \<noteq> 0)"
| "notZero NaN = True"
| "notZero PInf = True"
| "notZero NInf = True"

subsection \<open>The analysis of the current run\<close>

text \<open>How a size entry and an object of size entries appear as values.\<close>

definition entryJson :: "size_entry \<Rightarrow> jsval" where
  "entryJson e = Obj [(''raw'', Num (raw e)), (''gzip'', Num (gzip e))]"

definition entriesJson :: "(string \<times> size_entry) list \<Rightarrow> jsval" where
  "entriesJson m = Obj (map (\<lambda>(k, e). (k, entryJson e)) m)"

definition zeroEntry :: size_entry where
  "zeroEntry = \<lparr>raw = 0, gzip = 0\<rparr>"

text \<open>
  \<open>outputJson\<close>, the analysis of the current run, built by the script itself: each
  member is given by its own properties.
\<close>

record analysis =
  o_global :: size_entry
  o_pages :: "(string \<times> size_entry) list"
  o_files :: "(string \<times> size_entry) list"
  o_routes :: "(string \<times> route_info) list"
  o_rootMainFiles :: "string list"

text \<open>\<open>compatJson = { __global: globalAppDirBundleSizes, ...allAppDirSizes }\<close>, as it
  is read back by the next run; \<open>allSizes\<close> are the own properties of
  \<open>allAppDirSizes\<close>.\<close>

definition compatJson :: "size_entry \<Rightarrow> (string \<times> size_entry) list \<Rightarrow> jsval" where
  "compatJson globalSizes allSizes =
     Obj (foldl (\<lambda>acc (pagePath, e). AList.update pagePath (entryJson e) acc)
            [(''__global'', entryJson globalSizes)] allSizes)"

subsection \<open>The file pass\<close>

record changed_file =
  cf_file :: string
  cf_prev :: found
  cf_curr :: found
  cf_delta_raw :: jsnum
  cf_delta_gzip :: jsnum

record new_file =
  nf_file :: string
  nf_curr :: found

record removed_file =
  rf_file :: string
  rf_prev :: found

datatype file_class = Removed removed_file | New new_file | Changed changed_file | Unlisted

text \<open>
  The body of \<open>for (const key of fileKeys)\<close>, with \<open>p = prevFiles[key]\<close> and
  \<open>c = currFiles[key]\<close>; a subtraction that throws ends \<open>logDiffs\<close>.
\<close>

definition classifyFile :: "jsval \<Rightarrow> jsval \<Rightarrow> string \<Rightarrow> js_error + file_class" where
  "classifyFile prevFiles currFiles key =
     (let p = getProp prevFiles key;
          c = getProp currFiles key
      in if truthyFound p \<and> \<not> truthyFound c
         then Inr (Removed \<lparr>rf_file = key, rf_prev = p\<rparr>)
         else if \<not> truthyFound p \<and> truthyFound c
         then Inr (New \<lparr>nf_file = key, nf_curr = c\<rparr>)
         else if truthyFound p \<and> truthyFound c
         then (case sub (sizeProp c RawField) (sizeProp p RawField) of
                 Inl e \<Rightarrow> Inl e
               | Inr dr \<Rightarrow>
                   (case sub (sizeProp c GzipField) (sizeProp p GzipField) of
                      Inl e \<Rightarrow> Inl e
                    | Inr dg \<Rightarrow>
                        Inr (if notZero dr \<or> notZero dg
                             then Changed \<lparr>cf_file = key, cf_prev = p, cf_curr = c,
                                           cf_delta_raw = dr, cf_delta_gzip = dg\<rparr>
                             else Unlisted)))
         else Inr Unlisted)"

fun fileLoop ::
  "jsval \<Rightarrow> jsval \<Rightarrow> string list \<Rightarrow>
   changed_file list \<times> new_file list \<times> removed_file list \<Rightarrow>
   js_error + (changed_file list \<times> new_file list \<times> removed_file list)" where
  "fileLoop prevFiles currFiles [] acc = Inr acc"
| "fileLoop prevFiles currFiles (key # rest) (changedFiles, newFiles, removedFiles) =
     (case classifyFile prevFiles currFiles key of
        Inl e \<Rightarrow> Inl e
      | Inr (Removed r) \<Rightarrow>
          fileLoop prevFiles currFiles rest (changedFiles, newFiles, removedFiles @ [r])
      | Inr (New n) \<Rightarrow>
          fileLoop prevFiles currFiles rest (changedFiles, newFiles @ [n], removedFiles)
      | Inr (Changed c) \<Rightarrow>
          fileLoop prevFiles currFiles rest (changedFiles @ [c], newFiles, removedFiles)
      | Inr Unlisted \<Rightarrow>
          fileLoop prevFiles currFiles rest (changedFiles, newFiles, removedFiles))"

subsection \<open>The page pass\<close>

record page_change =
  pc_page :: string
  pc_prev :: found
  pc_curr :: found
  pc_delta_raw :: jsnum
  pc_delta_gzip :: jsnum

text \<open>\<open>obj[key] || { raw: 0, gzip: 0 }\<close>\<close>

definition orZero :: "found \<Rightarrow> found" where
  "orZero x = (if truthyFound x then x else Val (entryJson zeroEntry))"

text \<open>The body of \<open>for (const key of pageKeys)\<close>: the change pushed for a key, if
  any.\<close>

definition pageChange :: "jsval \<Rightarrow> jsval \<Rightarrow> string \<Rightarrow> js_error + page_change option" where
  "pageChange prevPages currPages key =
     (let p = orZero (getProp prevPages key);
          c = orZero (getProp currPages key)
      in case sub (sizeProp c RawField) (sizeProp p RawField) of
           Inl e \<Rightarrow> Inl e
         | Inr dr \<Rightarrow>
             (case sub (sizeProp c GzipField) (sizeProp p GzipField) of
                Inl e \<Rightarrow> Inl e
              | Inr dg \<Rightarrow>
                  Inr (if notZero dr \<or> notZero dg
                       then Some \<lparr>pc_page = key, pc_prev = p, pc_curr = c,
                                   pc_delta_raw = dr, pc_delta_gzip = dg\<rparr>
                       else None)))"

fun pageLoop ::
  "jsval \<Rightarrow> jsval \<Rightarrow> string list \<Rightarrow> page_change list \<Rightarrow> js_error + page_change list" where
  "pageLoop prevPages currPages [] pageChanges = Inr pageChanges"
| "pageLoop prevPages currPages (key # rest) pageChanges =
     (case pageChange prevPages currPages key of
        Inl e \<Rightarrow> Inl e
      | Inr (Some change) \<Rightarrow> pageLoop prevPages currPages rest (pageChanges @ [change])
      | Inr None \<Rightarrow> pageLoop prevPages currPages rest pageChanges)"

subsection \<open>logDiffs\<close>

record diff_log =
  delta_global :: "jsnum \<times> jsnum"
  changedFiles :: "changed_file list"
  newFiles :: "new_file list"
  removedFiles :: "removed_file list"
  pageChanges :: "page_change list"
  newRoutes :: "string list"
  removedRoutes :: "string list"

text \<open>
  What \<open>logDiffs(prev, curr)\<close> computes and prints, or the \<open>TypeError\<close> it ends
  with, thrown by a subtraction or while a line is printed.
  \<open>prev\<close> is the parsed previous document or \<open>None\<close> for \<open>null\<close>; \<open>cur\<close> (the
  source's \<open>curr\<close>) is \<open>outputJson\<close>, whose members are always defined, so its
  \<open>|| {}\<close> defaults never apply.
\<close>

definition prevFilesOf :: "jsval option \<Rightarrow> jsval" where
  "prevFilesOf prev = orElse (docMember prev Files) (Obj [])"

definition prevPagesOf :: "jsval option \<Rightarrow> jsval" where
  "prevPagesOf prev = orElse (docMember prev Pages) (Obj [])"

definition prevRoutesOf :: "jsval option \<Rightarrow> jsval" where
  "prevRoutesOf prev = orElse (docMember prev Routes) (Obj [])"

text \<open>\<open>fileKeys\<close> and \<open>pageKeys\<close> of \<open>logDiffs\<close>.\<close>

definition fileKeysOf :: "jsval option \<Rightarrow> analysis \<Rightarrow> string list" where
  "fileKeysOf prev cur = newSet (objectKeys (prevFilesOf prev) @ map fst (o_files cur))"

definition pageKeysOf :: "jsval option \<Rightarrow> analysis \<Rightarrow> string list" where
  "pageKeysOf prev cur = newSet (objectKeys (prevPagesOf prev) @ map fst (o_pages cur))"

text \<open>
  The lines printed from values of the previous document. A \<open>REMOVED\<close> line prints
  \<open>f.prev.raw\<close> and \<open>f.prev.gzip\<close>; a \<open>REMOVED PAGE\<close> line prints
  \<open>info?.sourceFile || info?.source || 'unknown'\<close> for \<open>info = prevRoutes[r]\<close>.
  Printing throws where the value printed cannot be converted. All other lines print
  values of the current analysis and numbers already subtracted.
\<close>

definition removedLinesThrow :: "removed_file list \<Rightarrow> bool" where
  "removedLinesThrow removed =
     list_ex (\<lambda>f. unconvertible (sizeProp (rf_prev f) RawField)
                \<or> unconvertible (sizeProp (rf_prev f) GzipField)) removed"

datatype route_field = SourceFileField | SourceField

fun routeFieldName :: "route_field \<Rightarrow> string" where
  "routeFieldName SourceFileField = ''sourceFile''"
| "routeFieldName SourceField = ''source''"

fun routeProp :: "found \<Rightarrow> route_field \<Rightarrow> jsval option" where
  "routeProp (Val (Obj kvs)) f = map_of kvs (routeFieldName f)"
| "routeProp (Val (Num n)) f = None"
| "routeProp Builtin f = None"
| "routeProp Undefined f = None"

definition removedPageLineThrows :: "jsval \<Rightarrow> string \<Rightarrow> bool" where
  "removedPageLineThrows prevRoutes r =
     (let info = getProp prevRoutes r;
          sourceFile = routeProp info SourceFileField
      in if truthyOpt sourceFile then unconvertible sourceFile
         else unconvertible (routeProp info SourceField))"

definition logDiffs :: "jsval option \<Rightarrow> analysis \<Rightarrow> js_error + diff_log" where
  "logDiffs prev cur =
     (let prevGlobal = Val (orElse (docMember prev Global) (entryJson zeroEntry));
          currGlobal = Val (entryJson (o_global cur))
      in case sub (sizeProp currGlobal RawField) (sizeProp prevGlobal RawField) of
           Inl e \<Rightarrow> Inl e
         | Inr dGlobalRaw \<Rightarrow>
       (case sub (sizeProp currGlobal GzipField) (sizeProp prevGlobal GzipField) of
           Inl e \<Rightarrow> Inl e
         | Inr dGlobalGzip \<Rightarrow>
       (case fileLoop (prevFilesOf prev) (entriesJson (o_files cur)) (fileKeysOf prev cur)
               ([], [], []) of
           Inl e \<Rightarrow> Inl e
         | Inr (changed, new, removed) \<Rightarrow>
       if removedLinesThrow removed then Inl TypeError
       else
       (case pageLoop (prevPagesOf prev) (entriesJson (o_pages cur)) (pageKeysOf prev cur) [] of
           Inl e \<Rightarrow> Inl e
         | Inr pages \<Rightarrow>
           (let prevRouteKeys = newSet (objectKeys (prevRoutesOf prev));
                currRouteKeys = newSet (map fst (o_routes cur));
                newRoutes = filter (\<lambda>r. r \<notin> set prevRouteKeys) currRouteKeys;
                removedRoutes = filter (\<lambda>r. r \<notin> set currRouteKeys) prevRouteKeys
            in if list_ex (removedPageLineThrows (prevRoutesOf prev)) removedRoutes
               then Inl TypeError
               else Inr \<lparr>delta_global = (dGlobalRaw, dGlobalGzip),
                         changedFiles = changed,
                         newFiles = new,
                         removedFiles = removed,
                         pageChanges = pages,
                         newRoutes = newRoutes,
                         removedRoutes = removedRoutes\<rparr>)))))"



section \<open>The review comment (append-extended-bundle-comment.js)\<close>

text \<open>
  \<open>readJsonSafe\<close> gives the parsed document, or \<open>null\<close> (\<open>None\<close>) for a file that
  is missing or does not parse; the four results are the inputs here.
\<close>

text \<open>\<open>a || b\<close> on two documents.\<close>

definition orDoc :: "jsval option \<Rightarrow> jsval option \<Rightarrow> jsval option" where
  "orDoc a b = (if truthyOpt a then a else b)"

definition currFilesOf :: "jsval option \<Rightarrow> jsval" where
  "currFilesOf cur = orElse (docMember cur Files) (Obj [])"

text \<open>\<open>(base && base.__files) || {}\<close>\<close>

definition baseFilesOf :: "jsval option \<Rightarrow> jsval" where
  "baseFilesOf base =
     orElse (if truthyOpt base then docMember base Files else base) (Obj [])"

record row =
  r_file :: string
  r_raw :: "jsval option"
  r_gzip :: "jsval option"

record changed_row = row +
  dRaw :: jsnum
  dGzip :: jsnum

datatype row_class = Added row | Gone row | ChangedRow changed_row | Skipped

text \<open>
  The body of \<open>for (const k of keys)\<close>, with \<open>c = currFiles[k]\<close> and
  \<open>b = baseFiles[k]\<close>; a subtraction that throws ends the script.
\<close>

definition classifyRow :: "jsval \<Rightarrow> jsval \<Rightarrow> string \<Rightarrow> js_error + row_class" where
  "classifyRow currFiles baseFiles k =
     (let c = getProp currFiles k;
          b = getProp baseFiles k
      in if truthyFound c \<and> \<not> truthyFound b
         then Inr (Added \<lparr>r_file = k, r_raw = sizeProp c RawField,
                          r_gzip = sizeProp c GzipField\<rparr>)
         else if \<not> truthyFound c \<and> truthyFound b
         then Inr (Gone \<lparr>r_file = k, r_raw = sizeProp b RawField,
                         r_gzip = sizeProp b GzipField\<rparr>)
         else if truthyFound c \<and> truthyFound b
         then (case sub (sizeProp c RawField) (sizeProp b RawField) of
                 Inl e \<Rightarrow> Inl e
               | Inr dr \<Rightarrow>
                   (case sub (sizeProp c GzipField) (sizeProp b GzipField) of
                      Inl e \<Rightarrow> Inl e
                    | Inr dg \<Rightarrow>
                        Inr (if notZero dr \<or> notZero dg
                             then ChangedRow \<lparr>r_file = k, r_raw = sizeProp c RawField,
                                               r_gzip = sizeProp c GzipField,
                                               dRaw = dr, dGzip = dg\<rparr>
                             else Skipped)))
         else Inr Skipped)"

fun rowLoop ::
  "jsval \<Rightarrow> jsval \<Rightarrow> string list \<Rightarrow> changed_row list \<times> row list \<times> row list \<Rightarrow>
   js_error + (changed_row list \<times> row list \<times> row list)" where
  "rowLoop currFiles baseFiles [] acc = Inr acc"
| "rowLoop currFiles baseFiles (k # rest) (changed, added, removed) =
     (case classifyRow currFiles baseFiles k of
        Inl e \<Rightarrow> Inl e
      | Inr (Added r) \<Rightarrow> rowLoop currFiles baseFiles rest (changed, added @ [r], removed)
      | Inr (Gone r) \<Rightarrow> rowLoop currFiles baseFiles rest (changed, added, removed @ [r])
      | Inr (ChangedRow r) \<Rightarrow> rowLoop currFiles baseFiles rest (changed @ [r], added, removed)
      | Inr Skipped \<Rightarrow> rowLoop currFiles baseFiles rest (changed, added, removed))"

text \<open>The three arrays as the loop leaves them, before \<open>changed\<close> is sorted.\<close>

definition rowsOf ::
  "jsval option \<Rightarrow> jsval option \<Rightarrow> js_error + (changed_row list \<times> row list \<times> row list)" where
  "rowsOf cur base =
     (let currFiles = currFilesOf cur;
          baseFiles = baseFilesOf base
      in rowLoop currFiles baseFiles (newSet (objectKeys currFiles @ objectKeys baseFiles))
           ([], [], []))"

text \<open>\<open>Math.abs\<close>\<close>

fun absNum :: "jsnum \<Rightarrow> jsnum" where
  "absNum (Fin n) = Fin \<bar>n\<bar>"
| "absNum NaN = NaN"
| "absNum PInf = PInf"
| "absNum NInf = PInf"

text \<open>
  The comparator of \<open>changed.sort\<close>:
  \<open>Math.abs(b.dGzip) - Math.abs(a.dGzip) || Math.abs(b.dRaw) - Math.abs(a.dRaw)\<close>;
  the left operand of \<open>||\<close> is kept unless it is 0 or \<open>NaN\<close>.
\<close>

definition compareChanged :: "changed_row \<Rightarrow> changed_row \<Rightarrow> jsnum" where
  "compareChanged a b =
     (let d = minusNum (absNum (dGzip b)) (absNum (dGzip a))
      in if d \<noteq> Fin 0 \<and> d \<noteq> NaN then d
         else minusNum (absNum (dRaw b)) (absNum (dRaw a)))"

fun positive :: "jsnum \<Rightarrow> bool" where
  "positive (Fin n) = (0 < n)"
| "positive PInf = True"
| "positive NInf = False"
| "positive NaN = False"

fun isFin :: "jsnum \<Rightarrow> bool" where
  "isFin (Fin n) = True"
| "isFin NaN = False"
| "isFin PInf = False"
| "isFin NInf = False"

text \<open>
  Insertion from the left end: \<open>x\<close> is moved behind \<open>y\<close> only if the comparator
  gives a positive number for \<open>(x, y)\<close>. Folded from the right this is a stable sort.
\<close>

fun insertBy :: "('a \<Rightarrow> 'a \<Rightarrow> jsnum) \<Rightarrow> 'a \<Rightarrow> 'a list \<Rightarrow> 'a list" where
  "insertBy cmp x [] = [x]"
| "insertBy cmp x (y # ys) =
     (if positive (cmp x y) then y # insertBy cmp x ys else x # y # ys)"

text \<open>
  \<open>changed.sort(...)\<close>. \<open>Array.prototype.sort\<close> is a stable sort when the comparator
  is consistent, and then its result does not depend on the algorithm. The comparator
  above is consistent on rows whose deltas are all finite numbers. Where a delta is
  \<open>NaN\<close> or infinite the comparator can return \<open>NaN\<close>; ECMAScript then leaves the
  order to the implementation, and the order is left open here. An array of at most one
  row has one order only.
\<close>

datatype 'a sort_result = Sorted "'a list" | OrderOpen

definition sortChanged :: "changed_row list \<Rightarrow> changed_row sort_result" where
  "sortChanged rows =
     (if length rows \<le> 1 then Sorted rows
      else if list_all (\<lambda>r. isFin (dGzip r) \<and> isFin (dRaw r)) rows
      then Sorted (foldr (insertBy compareChanged) rows [])
      else OrderOpen)"

text \<open>
  Rendering the added and the removed rows converts \<open>r.raw\<close> and \<open>r.gzip\<close> (in
  \<open>formatBytes\<close>, in \<open>sign\<close>, and in \<open>-r.raw\<close>, \<open>-r.gzip\<close>), and throws where
  one of them cannot be converted. The sizes of a changed row have been subtracted before,
  so rendering the changed rows does not throw.
\<close>

definition tableThrows :: "row list \<Rightarrow> bool" where
  "tableThrows rows = list_ex (\<lambda>r. unconvertible (r_raw r) \<or> unconvertible (r_gzip r)) rows"

text \<open>
  The outcome of the script: it leaves through \<open>process.exit(0)\<close> before anything is
  written, or it goes on to write the comment, whose tables are the sorted changed rows,
  the added rows and the removed rows; or it ends with the \<open>TypeError\<close> of a
  subtraction or of rendering a row.
\<close>

datatype script_result =
  ExitWithoutWriting
| Comment "changed_row sort_result" "row list" "row list"

definition appendExtendedBundleComment ::
  "jsval option \<Rightarrow> jsval option \<Rightarrow> jsval option \<Rightarrow> jsval option \<Rightarrow>
   js_error + script_result" where
  "appendExtendedBundleComment currPrimary currExtended basePrimary baseExtended =
     (let cur = orDoc currPrimary currExtended;
          base = orDoc basePrimary baseExtended
      in if \<not> truthyOpt cur then Inr ExitWithoutWriting
         else (case rowsOf cur base of
                 Inl e \<Rightarrow> Inl e
               | Inr (changed, added, removed) \<Rightarrow>
                   (let sorted = sortChanged changed
                    in if tableThrows added \<or> tableThrows removed then Inl TypeError
                       else Inr (Comment sorted added removed))))"





subsection \<open>Example build output\<close>

text \<open>A small store used to instantiate the theorems below: \<open>joinRoot\<close> puts the
  path under \<open>/out/\<close> and normalises a leading \<open>./\<close>, as \<open>path.join\<close> does.\<close>

definition exampleEnv :: build_env where
  "exampleEnv =
     \<lparr>joinRoot = (\<lambda>p. ''/out/'' @ (if take 2 p = ''./'' then drop 2 p else p)),
      store = map_of [(''/out/a.js'', File ''aaaa''), (''/out/g.js'', File ''gg''),
                      (''/out/d'', Unreadable)],
      gzSize = (\<lambda>t. length t div 2)\<rparr>"

definition exampleCache :: measurer where
  "exampleCache = \<lparr>memoryCache = [''/out/a.js'' \<mapsto> (4, 2)], reads = [''/out/a.js'']\<rparr>"

subsection \<open>Example documents\<close>

definition exampleCur :: analysis where
  "exampleCur =
     \<lparr>o_global = \<lparr>raw = 150, gzip = 55\<rparr>,
      o_pages = [(''/same'', \<lparr>raw = 7, gzip = 3\<rparr>), (''/new'', \<lparr>raw = 40, gzip = 12\<rparr>)],
      o_files = [(''b.js'', \<lparr>raw = 300, gzip = 120\<rparr>)],
      o_routes = [(''/about'', \<lparr>source = ''/about/page'', sourceFile = None\<rparr>)],
      o_rootMainFiles = []\<rparr>"

text \<open>A current analysis with a file and a page named \<open>constructor\<close>: the file is
  the one root file, and the page loads it and \<open>p.js\<close>.\<close>

definition inheritedCur :: analysis where
  "inheritedCur =
     \<lparr>o_global = \<lparr>raw = 2, gzip = 1\<rparr>,
      o_pages = [(''constructor'', \<lparr>raw = 5, gzip = 3\<rparr>)],
      o_files = [(''constructor'', \<lparr>raw = 2, gzip = 1\<rparr>), (''p.js'', \<lparr>raw = 5, gzip = 3\<rparr>)],
      o_routes = [],
      o_rootMainFiles = [''constructor'']\<rparr>"

text \<open>A previous document as an earlier run wrote it: the compat document of a run
  with one page.\<close>

definition compatPrev :: "jsval option" where
  "compatPrev = Some (compatJson \<lparr>raw = 1, gzip = 1\<rparr> [(''/home'', \<lparr>raw = 4, gzip = 2\<rparr>)])"



definition tiedDoc :: "string \<Rightarrow> string \<Rightarrow> int \<Rightarrow> jsval" where
  "tiedDoc k1 k2 n = Obj [(''__files'', entriesJson [(k1, \<lparr>raw = n, gzip = n\<rparr>),
                                                     (k2, \<lparr>raw = n, gzip = n\<rparr>)])]"







section \<open>Properties of the measurement\<close>

lemma cacheOk_empty: "cacheOk env emptyMeasurer"
  by (simp add: cacheOk_def emptyMeasurer_def)

lemma getScriptSize_hit:
  "memoryCache s (joinRoot env q) = Some v \<Longrightarrow> getScriptSize env s q = Inr (v, s)"
  by (cases v) (simp add: getScriptSize_def)

lemma getScriptSize_miss:
  assumes "memoryCache s (joinRoot env q) = None"
  shows "getScriptSize env s q =
           (if store env (joinRoot env q) = Some Unreadable then Inl (ReadError (joinRoot env q))
            else Inr (sizeAt env (joinRoot env q),
                      s\<lparr>memoryCache := (memoryCache s)(joinRoot env q \<mapsto> sizeAt env (joinRoot env q)),
                        reads := (if store env (joinRoot env q) = None then reads s
                                  else reads s @ [joinRoot env q])\<rparr>))"
  using assms
  by (simp add: getScriptSize_def sizeAt_def Let_def split: option.split fs_node.split)

lemma getScriptSize_ok:
  assumes ok: "cacheOk env s" and call: "getScriptSize env s q = Inr (v, s')"
  shows "cacheOk env s' \<and> v = sizeAt env (joinRoot env q)"
proof (cases "memoryCache s (joinRoot env q)")
  case None
  from call have "store env (joinRoot env q) \<noteq> Some Unreadable"
    by (auto simp: getScriptSize_miss [OF None] split: if_splits)
  with call ok show ?thesis
    by (auto simp: getScriptSize_miss [OF None] cacheOk_def split: if_splits)
next
  case (Some w)
  with call ok show ?thesis
    by (cases w) (auto simp: getScriptSize_hit [OF Some] cacheOk_def)
qed

lemma reachable_cacheOk: "reachable env s \<Longrightarrow> cacheOk env s"
  by (induction rule: reachable.induct) (auto simp: cacheOk_empty dest: getScriptSize_ok)

lemma reduceSizes_total:
  assumes "cacheOk env s" and "reduceSizes env acc s qs = Inr (res, s')"
  shows "cacheOk env s' \<and> raw res = raw acc + raw (total env qs)
         \<and> gzip res = gzip acc + gzip (total env qs)"
  using assms
proof (induction qs arbitrary: acc s)
  case Nil
  then show ?case by (simp add: total_def)
next
  case (Cons q qs)
  from Cons.prems(2) obtain r g s1 where
    one: "getScriptSize env s q = Inr ((r, g), s1)" and
    rest: "reduceSizes env \<lparr>raw = raw acc + r, gzip = gzip acc + g\<rparr> s1 qs = Inr (res, s')"
    by (auto split: sum.splits)
  from getScriptSize_ok [OF Cons.prems(1) one]
  have ok1: "cacheOk env s1" and v: "(r, g) = sizeAt env (joinRoot env q)" by simp_all
  from v have r: "r = fst (sizeAt env (joinRoot env q))" and g: "g = snd (sizeAt env (joinRoot env q))"
    by (metis fst_conv, metis snd_conv)
  from Cons.IH [OF ok1 rest] show ?case
    by (simp add: total_def r g)
qed

lemma getScriptSizes_total:
  assumes "cacheOk env s" and "getScriptSizes env s qs = Inr (res, s')"
  shows "cacheOk env s' \<and> res = total env qs"
  using reduceSizes_total [of env s "\<lparr>raw = 0, gzip = 0\<rparr>" qs res s'] assms
  by (simp add: getScriptSizes_def)

lemma reducePages_total:
  assumes "cacheOk env s" and "reducePages env G acc s P = Inr (res, s')"
    and "distinct (map fst P)"
  shows "cacheOk env s' \<and>
         (\<forall>page. map_of res page =
            (case map_of P page of
               None \<Rightarrow> map_of acc page
             | Some paths \<Rightarrow> Some (total env (filter (\<lambda>q. q \<notin> set G) paths))))"
  using assms
proof (induction P arbitrary: acc s)
  case Nil
  then show ?case by simp
next
  case (Cons pp P)
  obtain pagePath scriptPaths where pp: "pp = (pagePath, scriptPaths)" by (cases pp)
  from Cons.prems(2) pp obtain sizes s1 where
    one: "getScriptSizes env s (filter (\<lambda>q. q \<notin> set G) scriptPaths) = Inr (sizes, s1)" and
    rest: "reducePages env G (AList.update pagePath sizes acc) s1 P = Inr (res, s')"
    by (auto split: sum.splits)
  from getScriptSizes_total [OF Cons.prems(1) one]
  have ok1: "cacheOk env s1" and sz: "sizes = total env (filter (\<lambda>q. q \<notin> set G) scriptPaths)"
    by simp_all
  from Cons.prems(3) pp have d: "distinct (map fst P)" and fresh: "map_of P pagePath = None"
    by (auto simp: map_of_eq_None_iff)
  from Cons.IH [OF ok1 rest d] fresh show ?case
    by (auto simp: pp sz update_conv' split: option.splits)
qed

lemma filter_removeAll_excluded:
  "g \<in> set G \<Longrightarrow> filter (\<lambda>q. q \<notin> set G) (removeAll g paths) = filter (\<lambda>q. q \<notin> set G) paths"
  by (induction paths) auto

lemma measureAll_pages:
  assumes run: "measureAll env G P = Inr (m, s)" and d: "distinct (map fst P)"
    and mem: "(page, paths) \<in> set P"
  shows "map_of (pageSizes m) page = Some (total env (filter (\<lambda>q. q \<notin> set G) paths))"
proof -
  from run obtain g s1 pages s2 where
    glob: "getScriptSizes env emptyMeasurer G = Inr (g, s1)" and
    pgs: "allAppDirSizes env G s1 P = Inr (pages, s2)" and
    m: "pageSizes m = pages"
    by (auto simp: measureAll_def split: sum.splits)
  from getScriptSizes_total [OF cacheOk_empty glob] have ok1: "cacheOk env s1" by simp
  from pgs have "reducePages env G [] s1 P = Inr (pages, s2)"
    by (simp add: allAppDirSizes_def)
  from reducePages_total [OF ok1 this d]
  have "map_of pages page =
          (case map_of P page of None \<Rightarrow> map_of [] page
           | Some paths \<Rightarrow> Some (total env (filter (\<lambda>q. q \<notin> set G) paths)))"
    by blast
  moreover from d mem have "map_of P page = Some paths" by simp
  ultimately show ?thesis by (simp add: m)
qed

text \<open>
  C1. In a run that completes, the total recorded for a page is the sum of the sizes of
  exactly those of its script paths that are not in the global file list; striking every
  occurrence of a global path from the page's list, however many there are, leaves the
  page's total as it is.
\<close>

theorem page_total_excludes_global:
  assumes "measureAll env globalAppDirBundle appDirPages = Inr (m, s)"
    and "distinct (map fst appDirPages)"
    and "(pagePath, scriptPaths) \<in> set appDirPages"
  shows "map_of (pageSizes m) pagePath =
           Some (total env (filter (\<lambda>q. q \<notin> set globalAppDirBundle) scriptPaths))
         \<and> (\<forall>g \<in> set globalAppDirBundle.
               map_of (pageSizes m) pagePath =
                 Some (total env (filter (\<lambda>q. q \<notin> set globalAppDirBundle)
                                         (removeAll g scriptPaths))))"
  using measureAll_pages [OF assms] by (simp add: filter_removeAll_excluded)

theorem page_total_excludes_global_witness:
  "\<exists>m s. measureAll exampleEnv [''g.js''] [(''/page'', [''g.js'', ''a.js'', ''g.js''])] = Inr (m, s)
     \<and> distinct (map fst [(''/page'', [''g.js'', ''a.js'', ''g.js''])])
     \<and> (''/page'', [''g.js'', ''a.js'', ''g.js'']) \<in> set [(''/page'', [''g.js'', ''a.js'', ''g.js''])]
     \<and> map_of (pageSizes m) ''/page'' = Some \<lparr>raw = 4, gzip = 2\<rparr>
     \<and> map_of (pageSizes m) ''/page'' = Some (total exampleEnv [''a.js''])"
proof -
  have "\<not> isl (measureAll exampleEnv [''g.js''] [(''/page'', [''g.js'', ''a.js'', ''g.js''])])"
    by code_simp
  then obtain m s where run:
    "measureAll exampleEnv [''g.js''] [(''/page'', [''g.js'', ''a.js'', ''g.js''])] = Inr (m, s)"
    by (cases "measureAll exampleEnv [''g.js''] [(''/page'', [''g.js'', ''a.js'', ''g.js''])]") auto
  have d: "distinct (map fst [(''/page'', [''g.js'', ''a.js'', ''g.js''])])" by simp
  have mem: "(''/page'', [''g.js'', ''a.js'', ''g.js''])
               \<in> set [(''/page'', [''g.js'', ''a.js'', ''g.js''])]" by simp
  from page_total_excludes_global [OF run d mem]
  have "map_of (pageSizes m) ''/page'' = Some (total exampleEnv [''a.js''])" by simp
  moreover have "total exampleEnv [''a.js''] = \<lparr>raw = 4, gzip = 2\<rparr>"
    by (simp add: total_def sizeAt_def exampleEnv_def)
  ultimately show ?thesis using run by simp
qed

subsection \<open>Missing files\<close>

lemma getScriptSize_missing:
  assumes ok: "cacheOk env s" and miss: "store env (joinRoot env q) = None"
  shows "\<exists>s'. getScriptSize env s q = Inr ((0, 0), s')"
proof (cases "memoryCache s (joinRoot env q)")
  case None
  then show ?thesis using miss by (simp add: getScriptSize_miss sizeAt_def)
next
  case (Some v)
  with ok have "v = sizeAt env (joinRoot env q)" unfolding cacheOk_def by blast
  with miss have "v = (0, 0)" by (simp add: sizeAt_def)
  with Some show ?thesis by (simp add: getScriptSize_hit)
qed

text \<open>
  C7. At any point of a run, measuring a path whose file is not in the build output store
  returns the sizes (0, 0) as an ordinary result: the call does not fail, and the run goes
  on from the state it returns.
\<close>

theorem missing_file_measures_zero:
  assumes "reachable env s" and "store env (joinRoot env scriptPath) = None"
  shows "\<exists>s'. getScriptSize env s scriptPath = Inr ((0, 0), s') \<and> reachable env s'"
proof -
  from getScriptSize_missing [OF reachable_cacheOk [OF assms(1)] assms(2)]
  obtain s' where "getScriptSize env s scriptPath = Inr ((0, 0), s')" ..
  with assms(1) show ?thesis by (blast intro: reachable.step)
qed

theorem missing_file_measures_zero_witness:
  "reachable exampleEnv emptyMeasurer
   \<and> store exampleEnv (joinRoot exampleEnv ''gone.js'') = None
   \<and> (\<exists>s'. getScriptSize exampleEnv emptyMeasurer ''gone.js'' = Inr ((0, 0), s')
             \<and> reachable exampleEnv s')"
proof -
  have r: "reachable exampleEnv emptyMeasurer" by (rule reachable.start)
  have m: "store exampleEnv (joinRoot exampleEnv ''gone.js'') = None"
    by (simp add: exampleEnv_def)
  from missing_file_measures_zero [OF r m] r m show ?thesis by simp
qed

subsection \<open>Memoization\<close>

lemma getScriptSize_cached_after:
  assumes "getScriptSize env s q = Inr (v, s')"
  shows "memoryCache s' (joinRoot env q) = Some v"
proof (cases "memoryCache s (joinRoot env q)")
  case None
  with assms show ?thesis by (auto simp: getScriptSize_miss split: if_splits)
next
  case (Some w)
  with assms show ?thesis by (auto simp: getScriptSize_hit)
qed

lemma getScriptSize_keeps:
  assumes "getScriptSize env s q = Inr (v, s')" and "memoryCache s k = Some w"
  shows "memoryCache s' k = Some w"
proof (cases "memoryCache s (joinRoot env q)")
  case None
  with assms show ?thesis by (auto simp: getScriptSize_miss split: if_splits)
next
  case (Some u)
  with assms show ?thesis by (auto simp: getScriptSize_hit)
qed

lemma later_keeps: "later env s t \<Longrightarrow> memoryCache s k = Some w \<Longrightarrow> memoryCache t k = Some w"
  by (induction rule: later.induct) (auto dest: getScriptSize_keeps)

lemma later_reachable: "later env s t \<Longrightarrow> reachable env s \<Longrightarrow> reachable env t"
  by (induction rule: later.induct) (auto intro: reachable.step)

lemma getScriptSize_readsOk:
  assumes "readsOk s" and "getScriptSize env s q = Inr (v, s')"
  shows "readsOk s'"
proof (cases "memoryCache s (joinRoot env q)")
  case None
  with assms show ?thesis
    by (auto simp: getScriptSize_miss readsOk_def split: if_splits)
next
  case (Some u)
  with assms show ?thesis by (auto simp: getScriptSize_hit)
qed

lemma reachable_readsOk: "reachable env s \<Longrightarrow> readsOk s"
proof (induction rule: reachable.induct)
  case start
  show ?case by (simp add: readsOk_def emptyMeasurer_def)
next
  case (step s q v s')
  then show ?case by (blast intro: getScriptSize_readsOk)
qed

text \<open>
  C8. Once a path has been measured, every later call whose path resolves to the same
  full path returns the same pair of sizes and leaves the cache and the log of file reads
  exactly as they were, so nothing is read or compressed again; over a whole run no
  resolved path occurs twice in the log of reads.
\<close>

theorem measurement_memoized:
  assumes "reachable env s"
    and "getScriptSize env s p = Inr (v, s1)"
    and "later env s1 s2"
    and "joinRoot env q = joinRoot env p"
  shows "getScriptSize env s2 q = Inr (v, s2) \<and> distinct (reads s2)"
proof -
  from getScriptSize_cached_after [OF assms(2)] later_keeps [OF assms(3)]
  have "memoryCache s2 (joinRoot env q) = Some v" by (simp add: assms(4))
  then have hit: "getScriptSize env s2 q = Inr (v, s2)" by (rule getScriptSize_hit)
  from assms(1,2) have "reachable env s1" by (rule reachable.step)
  with assms(3) have "reachable env s2" by (blast intro: later_reachable)
  then have "distinct (reads s2)" using reachable_readsOk by (auto simp: readsOk_def)
  with hit show ?thesis by simp
qed

theorem measurement_memoized_witness:
  "reachable exampleEnv emptyMeasurer
   \<and> getScriptSize exampleEnv emptyMeasurer ''a.js'' = Inr ((4, 2), exampleCache)
   \<and> later exampleEnv exampleCache exampleCache
   \<and> joinRoot exampleEnv ''./a.js'' = joinRoot exampleEnv ''a.js''
   \<and> getScriptSize exampleEnv exampleCache ''./a.js'' = Inr ((4, 2), exampleCache)
   \<and> distinct (reads exampleCache)"
proof -
  have r: "reachable exampleEnv emptyMeasurer" by (rule reachable.start)
  have c: "getScriptSize exampleEnv emptyMeasurer ''a.js'' = Inr ((4, 2), exampleCache)"
    by (simp add: getScriptSize_def exampleEnv_def emptyMeasurer_def exampleCache_def Let_def)
  have l: "later exampleEnv exampleCache exampleCache" by (rule later.same)
  have j: "joinRoot exampleEnv ''./a.js'' = joinRoot exampleEnv ''a.js''"
    by (simp add: exampleEnv_def)
  from measurement_memoized [OF r c l j] r c l j show ?thesis by simp
qed

section \<open>Properties of route resolution\<close>

lemma probe_find:
  "probe env suffix es =
     map_option (pathRelative env (cwd env))
       (List.find (existsSync env) (map (\<lambda>ext. pathJoin env (cwd env) (suffix ext)) es))"
  by (induction es) (simp_all add: Let_def)

lemma find_append:
  "List.find P (xs @ ys) = (case List.find P xs of Some x \<Rightarrow> Some x | None \<Rightarrow> List.find P ys)"
  by (induction xs) simp_all

text \<open>
  C9. The result of resolving a route source is the first file that exists among ten
  candidates tried in this fixed order: the page-level names with the extensions tsx, ts,
  jsx, js, mdx, and after them the nested \<open>route\<close> names with the same extensions in
  the same order; it is the absence marker exactly when none of the ten exists. A nested
  name is therefore returned only if no page-level name exists.
\<close>

theorem resolveSourceFile_first_existing:
  "resolveSourceFile env sourceLike =
     (let rel = pathJoin env ''app'' (stripSlash sourceLike) in
      map_option (pathRelative env (cwd env))
        (List.find (existsSync env)
           (map (pathJoin env (cwd env))
              [rel @ ''.tsx'', rel @ ''.ts'', rel @ ''.jsx'', rel @ ''.js'', rel @ ''.mdx'',
               rel @ ''/route.tsx'', rel @ ''/route.ts'', rel @ ''/route.jsx'',
               rel @ ''/route.js'', rel @ ''/route.mdx''])))"
proof -
  define rel where "rel = pathJoin env ''app'' (stripSlash sourceLike)"
  define A where "A = map (\<lambda>ext. pathJoin env (cwd env) (rel @ ''.'' @ ext)) exts"
  define B where "B = map (\<lambda>ext. pathJoin env (cwd env) (rel @ ''/route.'' @ ext)) exts"
  have lst: "map (pathJoin env (cwd env))
              [rel @ ''.tsx'', rel @ ''.ts'', rel @ ''.jsx'', rel @ ''.js'', rel @ ''.mdx'',
               rel @ ''/route.tsx'', rel @ ''/route.ts'', rel @ ''/route.jsx'',
               rel @ ''/route.js'', rel @ ''/route.mdx''] = A @ B"
    by (simp add: A_def B_def exts_def)
  have "resolveSourceFile env sourceLike =
          map_option (pathRelative env (cwd env)) (List.find (existsSync env) (A @ B))"
    unfolding find_append
    by (simp add: resolveSourceFile_def Let_def probe_find rel_def A_def B_def
             split: option.splits)
  then show ?thesis
    by (simp only: Let_def rel_def [symmetric] lst)
qed





section \<open>Properties of the numbers\<close>

lemma roundD_small: "\<bar>n\<bar> < 2 ^ 53 \<Longrightarrow> roundD n = Fin n"
  by (simp add: roundD_def)

lemma bits_lower: "0 < a \<Longrightarrow> 2 ^ (bits a - 1) \<le> a"
proof (induction a rule: bits.induct)
  case (1 a)
  show ?case
  proof (cases "a div 2 \<le> 0")
    case True
    with "1.prems" have "a = 1" by simp
    then show ?thesis by (simp add: bits.simps)
  next
    case False
    then have pos: "0 < a div 2" by simp
    with "1.prems" "1.IH" have ih: "2 ^ (bits (a div 2) - 1) \<le> a div 2" by simp
    from pos have "0 < bits (a div 2)"
      by (subst bits.simps) simp
    then have b: "bits (a div 2) = Suc (bits (a div 2) - 1)" by simp
    have "bits a = Suc (bits (a div 2))" using "1.prems" by (subst bits.simps) simp
    then have "(2::int) ^ (bits a - 1) = 2 * 2 ^ (bits (a div 2) - 1)"
      using b by (metis diff_Suc_1 power_Suc)
    also have "\<dots> \<le> 2 * (a div 2)" using ih by simp
    also have "\<dots> \<le> a" by simp
    finally show ?thesis .
  qed
qed

lemma roundD_sign:
  "(\<exists>y. roundD x = Fin y \<and> (y = 0 \<longleftrightarrow> x = 0) \<and> (0 < y \<longleftrightarrow> 0 < x))
   \<or> (roundD x = PInf \<and> 0 < x) \<or> (roundD x = NInf \<and> x < 0)"
proof (cases "\<bar>x\<bar> < 2 ^ 53")
  case True
  then show ?thesis by (simp add: roundD_small)
next
  case False
  define a where "a = \<bar>x\<bar>"
  define e where "e = bits a - 53"
  define q where "q = a div 2 ^ e"
  define r where "r = a mod 2 ^ e"
  define q' where "q' = (if 2 ^ e < 2 * r \<or> (2 * r = 2 ^ e \<and> odd q) then q + 1 else q)"
  define m where "m = q' * 2 ^ e"
  from False have big: "2 ^ 53 \<le> a" by (simp add: a_def)
  then have apos: "0 < a" by simp
  have "(2::int) ^ e \<le> 2 ^ (bits a - 1)" by (rule power_increasing) (simp_all add: e_def)
  also have "\<dots> \<le> a" using apos by (rule bits_lower)
  finally have "2 ^ e \<le> a" .
  then have "0 < q" unfolding q_def by (simp add: pos_imp_zdiv_pos_iff)
  then have "0 < q'" by (simp add: q'_def)
  then have mpos: "0 < m" by (simp add: m_def)
  from apos have x0: "x \<noteq> 0" by (auto simp: a_def)
  have eq: "roundD x = (if 2 ^ 1024 \<le> m then (if 0 < x then PInf else NInf)
                        else Fin (if 0 < x then m else - m))"
    unfolding roundD_def Let_def m_def q'_def r_def q_def e_def a_def
    using False by simp
  show ?thesis using mpos x0 by (auto simp: eq)
qed

lemma roundD_not_NaN [simp]: "roundD x \<noteq> NaN"
  using roundD_sign [of x] by auto

lemma notZero_roundD [simp]: "notZero (roundD x) \<longleftrightarrow> x \<noteq> 0"
  using roundD_sign [of x] by auto

lemma positive_roundD [simp]: "positive (roundD x) \<longleftrightarrow> 0 < x"
  using roundD_sign [of x] by auto

lemma roundD_eq_zero [simp]: "roundD x = Fin 0 \<longleftrightarrow> x = 0"
  using roundD_sign [of x] by auto

lemma notZero_minus_zero: "notZero (minusNum (roundD x) (Fin 0)) \<longleftrightarrow> x \<noteq> 0"
proof (cases "roundD x")
  case (Fin y)
  with roundD_sign [of x] have "y = 0 \<longleftrightarrow> x = 0" by auto
  with Fin show ?thesis by simp
qed (use roundD_sign [of x] in auto)



section \<open>Properties of the diff\<close>

lemma set_newSet [simp]: "set (newSet xs) = set xs"
  by (induction xs rule: newSet.induct) auto

lemma distinct_newSet [simp]: "distinct (newSet xs)"
  by (induction xs rule: newSet.induct) auto

lemma newSet_distinct: "distinct xs \<Longrightarrow> newSet xs = xs"
  by (induction xs) (simp_all add: removeAll_id)

lemma map_of_entries: "map_of (map (\<lambda>(k, e). (k, entryJson e)) m) k = map_option entryJson (map_of m k)"
  by (induction m) auto

lemma getProp_entriesJson:
  "getProp (entriesJson m) k =
     (case map_of m k of
        Some e \<Rightarrow> Val (entryJson e)
      | None \<Rightarrow> (if k \<in> set objectProtoNames then Builtin else Undefined))"
  by (simp add: entriesJson_def map_of_entries split: option.splits)

lemma objectKeys_entriesJson [simp]: "objectKeys (entriesJson m) = map fst m"
  by (induction m) (auto simp: entriesJson_def)

lemma sizeProp_entry [simp]:
  "sizeProp (Val (entryJson e)) RawField = Some (Num (raw e))"
  "sizeProp (Val (entryJson e)) GzipField = Some (Num (gzip e))"
  by (simp_all add: entryJson_def)

lemma truthy_entry [simp]: "truthy (entryJson e)"
  by (simp add: entryJson_def)

lemma minusNum_NaN_right [simp]: "minusNum x NaN = NaN"
  by (cases x) simp_all

lemma sub_Num [simp]:
  "sub (Some (Num a)) (Some (Num b)) = Inr (minusNum (roundD a) (roundD b))"
  "sub (Some (Num a)) None = Inr NaN"
  by (simp_all add: sub_def)

lemma roundD_0 [simp]: "roundD 0 = Fin 0"
  by (simp add: roundD_small)

lemma classifyFile_empty_prev:
  assumes "k \<notin> set objectProtoNames" and "map_of cf k = Some e"
  shows "classifyFile (Obj []) (entriesJson cf) k =
           Inr (New \<lparr>nf_file = k, nf_curr = Val (entryJson e)\<rparr>)"
  using assms by (simp add: classifyFile_def getProp_entriesJson)

lemma fileLoop_all_new:
  assumes "\<forall>k \<in> set keys. classifyFile pf cf k = Inr (New (f k))"
  shows "fileLoop pf cf keys (ch, nw, rm) = Inr (ch, nw @ map f keys, rm)"
  using assms by (induction keys arbitrary: nw) simp_all

lemma pageChange_empty_prev:
  assumes "k \<notin> set objectProtoNames" and "map_of cp k = Some e"
  shows "pageChange (Obj []) (entriesJson cp) k =
           Inr (if raw e \<noteq> 0 \<or> gzip e \<noteq> 0
                then Some \<lparr>pc_page = k, pc_prev = Val (entryJson zeroEntry),
                            pc_curr = Val (entryJson e),
                            pc_delta_raw = minusNum (roundD (raw e)) (Fin 0),
                            pc_delta_gzip = minusNum (roundD (gzip e)) (Fin 0)\<rparr>
                else None)"
  using assms
  by (simp add: pageChange_def orZero_def getProp_entriesJson zeroEntry_def notZero_minus_zero)

lemma pageLoop_all:
  assumes "\<forall>k \<in> set keys. pageChange pp cp k = Inr (g k)"
  shows "pageLoop pp cp keys acc =
           Inr (acc @ concat (map (\<lambda>k. case g k of Some c \<Rightarrow> [c] | None \<Rightarrow> []) keys))"
  using assms by (induction keys arbitrary: acc) (simp_all split: option.splits)

lemma map_keys_entries:
  assumes "distinct (map fst m)"
  shows "map (\<lambda>k. h k (map_of m k)) (map fst m) = map (\<lambda>(k, e). h k (Some e)) m"
proof -
  have "map ((\<lambda>k. h k (map_of m k)) \<circ> fst) m = map (\<lambda>(k, e). h k (Some e)) m"
    by (rule map_cong) (auto simp: assms)
  then show ?thesis by (simp only: map_map)
qed

lemma logDiffs_empty_previous:
  assumes pf: "prevFilesOf prev = Obj []" and pp: "prevPagesOf prev = Obj []"
    and pr: "prevRoutesOf prev = Obj []"
    and pg: "docMember prev Global = None \<or> (\<exists>e. docMember prev Global = Some (entryJson e))"
    and df: "distinct (map fst (o_files cur))" and dp: "distinct (map fst (o_pages cur))"
    and dr: "distinct (map fst (o_routes cur))"
    and nf: "\<forall>k \<in> set (map fst (o_files cur)). k \<notin> set objectProtoNames"
    and np: "\<forall>k \<in> set (map fst (o_pages cur)). k \<notin> set objectProtoNames"
  shows "\<exists>dg. logDiffs prev cur =
           Inr \<lparr>delta_global = dg,
                changedFiles = [],
                newFiles = map (\<lambda>(k, e). \<lparr>nf_file = k, nf_curr = Val (entryJson e)\<rparr>) (o_files cur),
                removedFiles = [],
                pageChanges =
                  [\<lparr>pc_page = k, pc_prev = Val (entryJson zeroEntry),
                    pc_curr = Val (entryJson e),
                    pc_delta_raw = minusNum (roundD (raw e)) (Fin 0),
                    pc_delta_gzip = minusNum (roundD (gzip e)) (Fin 0)\<rparr>.
                   (k, e) \<leftarrow> o_pages cur, raw e \<noteq> 0 \<or> gzip e \<noteq> 0],
                newRoutes = map fst (o_routes cur),
                removedRoutes = []\<rparr>"
proof -
  let ?F = "\<lambda>k. \<lparr>nf_file = k, nf_curr = (case map_of (o_files cur) k of
                     Some e \<Rightarrow> Val (entryJson e) | None \<Rightarrow> Undefined)\<rparr>"
  let ?G = "\<lambda>k. case map_of (o_pages cur) k of
                 Some e \<Rightarrow> (if raw e \<noteq> 0 \<or> gzip e \<noteq> 0
                   then Some \<lparr>pc_page = k, pc_prev = Val (entryJson zeroEntry),
                            pc_curr = Val (entryJson e),
                            pc_delta_raw = minusNum (roundD (raw e)) (Fin 0),
                            pc_delta_gzip = minusNum (roundD (gzip e)) (Fin 0)\<rparr>
                   else None)
               | None \<Rightarrow> None"
  have fk: "fileKeysOf prev cur = map fst (o_files cur)"
    by (simp add: fileKeysOf_def pf newSet_distinct df)
  have pk: "pageKeysOf prev cur = map fst (o_pages cur)"
    by (simp add: pageKeysOf_def pp newSet_distinct dp)
  have "\<forall>k \<in> set (map fst (o_files cur)).
          classifyFile (Obj []) (entriesJson (o_files cur)) k = Inr (New (?F k))"
  proof
    fix k assume k: "k \<in> set (map fst (o_files cur))"
    then obtain e where "map_of (o_files cur) k = Some e"
      by (metis map_of_eq_None_iff not_Some_eq set_map)
    moreover from nf k have "k \<notin> set objectProtoNames" by blast
    ultimately show "classifyFile (Obj []) (entriesJson (o_files cur)) k = Inr (New (?F k))"
      by (simp add: classifyFile_empty_prev)
  qed
  then have floop: "fileLoop (Obj []) (entriesJson (o_files cur)) (map fst (o_files cur)) ([], [], [])
                = Inr ([], map ?F (map fst (o_files cur)), [])"
    using fileLoop_all_new [of "map fst (o_files cur)" "Obj []" "entriesJson (o_files cur)" ?F "[]" "[]" "[]"]
    by simp
  have fmap: "map ?F (map fst (o_files cur)) =
              map (\<lambda>(k, e). \<lparr>nf_file = k, nf_curr = Val (entryJson e)\<rparr>) (o_files cur)"
    using map_keys_entries [OF df, of "\<lambda>k x. \<lparr>nf_file = k, nf_curr = (case x of
                     Some e \<Rightarrow> Val (entryJson e) | None \<Rightarrow> Undefined)\<rparr>"]
    by simp
  have "\<forall>k \<in> set (map fst (o_pages cur)).
          pageChange (Obj []) (entriesJson (o_pages cur)) k = Inr (?G k)"
  proof
    fix k assume k: "k \<in> set (map fst (o_pages cur))"
    then obtain e where "map_of (o_pages cur) k = Some e"
      by (metis map_of_eq_None_iff not_Some_eq set_map)
    moreover from np k have "k \<notin> set objectProtoNames" by blast
    ultimately show "pageChange (Obj []) (entriesJson (o_pages cur)) k = Inr (?G k)"
      by (simp add: pageChange_empty_prev)
  qed
  then have ploop: "pageLoop (Obj []) (entriesJson (o_pages cur)) (map fst (o_pages cur)) []
                = Inr (concat (map (\<lambda>k. case ?G k of Some c \<Rightarrow> [c] | None \<Rightarrow> [])
                                   (map fst (o_pages cur))))"
    using pageLoop_all [of "map fst (o_pages cur)" "Obj []" "entriesJson (o_pages cur)" ?G "[]"]
    by simp
  have pmap: "map (\<lambda>k. case ?G k of Some c \<Rightarrow> [c] | None \<Rightarrow> []) (map fst (o_pages cur)) =
              map (\<lambda>(k, e). if raw e \<noteq> 0 \<or> gzip e \<noteq> 0
                   then [\<lparr>pc_page = k, pc_prev = Val (entryJson zeroEntry),
                            pc_curr = Val (entryJson e),
                            pc_delta_raw = minusNum (roundD (raw e)) (Fin 0),
                            pc_delta_gzip = minusNum (roundD (gzip e)) (Fin 0)\<rparr>]
                   else []) (o_pages cur)"
    using map_keys_entries [OF dp, of "\<lambda>k x. case (case x of
                 Some e \<Rightarrow> (if raw e \<noteq> 0 \<or> gzip e \<noteq> 0
                   then Some \<lparr>pc_page = k, pc_prev = Val (entryJson zeroEntry),
                            pc_curr = Val (entryJson e),
                            pc_delta_raw = minusNum (roundD (raw e)) (Fin 0),
                            pc_delta_gzip = minusNum (roundD (gzip e)) (Fin 0)\<rparr>
                   else None)
               | None \<Rightarrow> None) of Some c \<Rightarrow> [c] | None \<Rightarrow> []"]
    by (simp add: case_prod_unfold cong: if_cong)
  from pg obtain dgr dgg where
    g1: "sub (sizeProp (Val (entryJson (o_global cur))) RawField)
             (sizeProp (Val (orElse (docMember prev Global) (entryJson zeroEntry))) RawField) = Inr dgr"
    and g2: "sub (sizeProp (Val (entryJson (o_global cur))) GzipField)
             (sizeProp (Val (orElse (docMember prev Global) (entryJson zeroEntry))) GzipField) = Inr dgg"
    by auto
  show ?thesis
    unfolding logDiffs_def Let_def g1 g2 pf pp pr fk pk floop ploop fmap pmap
    by (simp add: newSet_distinct dr case_prod_unfold removedLinesThrow_def)
qed



subsection \<open>The compat document as previous input\<close>

lemma compat_keys:
  "fst ` set (foldl (\<lambda>acc (k, e). AList.update k (f e) acc) init xs) = fst ` set init \<union> fst ` set xs"
proof (induction xs arbitrary: init)
  case Nil
  show ?case by simp
next
  case (Cons x xs)
  have "fst ` set (foldl (\<lambda>acc (k, e). AList.update k (f e) acc) init (x # xs)) =
        fst ` set (AList.update (fst x) (f (snd x)) init) \<union> fst ` set xs"
    using Cons.IH [of "AList.update (fst x) (f (snd x)) init"] by (simp add: case_prod_unfold)
  also have "\<dots> = fst ` set init \<union> fst ` set (x # xs)"
    unfolding dom_update by auto
  finally show ?case .
qed

lemma compat_values:
  assumes "\<forall>k v. map_of init k = Some v \<longrightarrow> (\<exists>e. v = f e)"
    and "map_of (foldl (\<lambda>acc (k, e). AList.update k (f e) acc) init xs) k = Some v"
  shows "\<exists>e. v = f e"
  using assms
proof (induction xs arbitrary: init)
  case Nil
  then show ?case by simp
next
  case (Cons x xs)
  have "\<forall>k v. map_of (AList.update (fst x) (f (snd x)) init) k = Some v \<longrightarrow> (\<exists>e. v = f e)"
    using Cons.prems(1) by (auto simp: update_conv')
  from Cons.IH [OF this] Cons.prems(2) show ?case by (simp add: case_prod_unfold)
qed

lemma objectKeys_compatJson:
  "set (objectKeys (compatJson g allSizes)) = insert ''__global'' (fst ` set allSizes)"
  using compat_keys [of entryJson "[(''__global'', entryJson g)]" allSizes]
  by (simp add: compatJson_def)

lemma docMember_compatJson_None:
  "memberName m \<noteq> ''__global'' \<Longrightarrow> memberName m \<notin> fst ` set allSizes \<Longrightarrow>
   docMember (Some (compatJson g allSizes)) m = None"
  using compat_keys [of entryJson "[(''__global'', entryJson g)]" allSizes]
  by (simp add: compatJson_def map_of_eq_None_iff)

lemma docMember_compatJson_Global:
  "\<exists>e. docMember (Some (compatJson g allSizes)) Global = Some (entryJson e)"
proof -
  let ?kvs = "foldl (\<lambda>acc (k, e). AList.update k (entryJson e) acc) [(''__global'', entryJson g)] allSizes"
  have "''__global'' \<in> fst ` set ?kvs"
    using compat_keys [of entryJson "[(''__global'', entryJson g)]" allSizes] by simp
  then obtain v where v: "map_of ?kvs ''__global'' = Some v"
    by (metis map_of_eq_None_iff not_Some_eq)
  have "\<forall>k v. map_of [(''__global'', entryJson g)] k = Some v \<longrightarrow> (\<exists>e. v = entryJson e)"
    by auto
  from compat_values [OF this v] v show ?thesis by (auto simp: compatJson_def)
qed

text \<open>
  C4 (amended). Provided no page is named \<open>__files\<close>, \<open>__pages\<close>,
  \<open>__routes\<close> or \<open>__proto__\<close>, the keys of the compat document are \<open>__global\<close>
  and the page keys, and when it is the previous input of a run, whatever sizes it holds,
  \<open>logDiffs\<close> sees empty previous files, pages and routes. Provided also that no
  current file or page has a name that objects inherit from \<open>Object.prototype\<close>,
  \<open>logDiffs\<close> completes, every current file is new and none is changed or removed,
  every current page is compared with (0, 0), and every current route is new.
\<close>

theorem compat_previous_is_first_run:
  assumes "''__files'' \<notin> fst ` set allSizes" and "''__pages'' \<notin> fst ` set allSizes"
    and "''__routes'' \<notin> fst ` set allSizes" and "''__proto__'' \<notin> fst ` set allSizes"
    and "distinct (map fst (o_files cur))" and "distinct (map fst (o_pages cur))"
    and "distinct (map fst (o_routes cur))"
    and "\<forall>k \<in> set (map fst (o_files cur)). k \<notin> set objectProtoNames"
    and "\<forall>k \<in> set (map fst (o_pages cur)). k \<notin> set objectProtoNames"
  shows "set (objectKeys (compatJson g allSizes)) = insert ''__global'' (fst ` set allSizes)
       \<and> prevFilesOf (Some (compatJson g allSizes)) = Obj []
       \<and> prevPagesOf (Some (compatJson g allSizes)) = Obj []
       \<and> prevRoutesOf (Some (compatJson g allSizes)) = Obj []
       \<and> (\<exists>dg. logDiffs (Some (compatJson g allSizes)) cur =
            Inr \<lparr>delta_global = dg,
                 changedFiles = [],
                 newFiles = map (\<lambda>(k, e). \<lparr>nf_file = k, nf_curr = Val (entryJson e)\<rparr>) (o_files cur),
                 removedFiles = [],
                 pageChanges =
                   [\<lparr>pc_page = k, pc_prev = Val (entryJson zeroEntry),
                     pc_curr = Val (entryJson e),
                     pc_delta_raw = minusNum (roundD (raw e)) (Fin 0),
                     pc_delta_gzip = minusNum (roundD (gzip e)) (Fin 0)\<rparr>.
                    (k, e) \<leftarrow> o_pages cur, raw e \<noteq> 0 \<or> gzip e \<noteq> 0],
                 newRoutes = map fst (o_routes cur),
                 removedRoutes = []\<rparr>)"
proof -
  let ?prev = "Some (compatJson g allSizes)"
  have f: "prevFilesOf ?prev = Obj []"
    using assms(1) by (simp add: prevFilesOf_def docMember_compatJson_None)
  have p: "prevPagesOf ?prev = Obj []"
    using assms(2) by (simp add: prevPagesOf_def docMember_compatJson_None)
  have r: "prevRoutesOf ?prev = Obj []"
    using assms(3) by (simp add: prevRoutesOf_def docMember_compatJson_None)
  have gl: "docMember ?prev Global = None \<or> (\<exists>e. docMember ?prev Global = Some (entryJson e))"
    using docMember_compatJson_Global [of g allSizes] by blast
  show ?thesis
    using logDiffs_empty_previous [OF f p r gl assms(5-9)] objectKeys_compatJson [of g allSizes]
    by (simp add: f p r)
qed



theorem compat_previous_is_first_run_witness:
  "''__files'' \<notin> fst ` set [(''/same'', \<lparr>raw = 7, gzip = 3\<rparr>)]
   \<and> ''__pages'' \<notin> fst ` set [(''/same'', \<lparr>raw = 7, gzip = 3\<rparr>)]
   \<and> ''__routes'' \<notin> fst ` set [(''/same'', \<lparr>raw = 7, gzip = 3\<rparr>)]
   \<and> ''__proto__'' \<notin> fst ` set [(''/same'', \<lparr>raw = 7, gzip = 3\<rparr>)]
   \<and> distinct (map fst (o_files exampleCur)) \<and> distinct (map fst (o_pages exampleCur))
   \<and> distinct (map fst (o_routes exampleCur))
   \<and> map fst (o_files exampleCur) = [''b.js''] \<and> ''b.js'' \<notin> set objectProtoNames
   \<and> map fst (o_pages exampleCur) = [''/same'', ''/new'']
   \<and> ''/same'' \<notin> set objectProtoNames \<and> ''/new'' \<notin> set objectProtoNames
   \<and> logDiffs (Some (compatJson \<lparr>raw = 100, gzip = 40\<rparr> [(''/same'', \<lparr>raw = 7, gzip = 3\<rparr>)]))
         exampleCur =
       Inr \<lparr>delta_global = (Fin 50, Fin 15),
            changedFiles = [],
            newFiles = [\<lparr>nf_file = ''b.js'', nf_curr = Val (entryJson \<lparr>raw = 300, gzip = 120\<rparr>)\<rparr>],
            removedFiles = [],
            pageChanges =
              [\<lparr>pc_page = ''/same'', pc_prev = Val (entryJson zeroEntry),
                pc_curr = Val (entryJson \<lparr>raw = 7, gzip = 3\<rparr>),
                pc_delta_raw = Fin 7, pc_delta_gzip = Fin 3\<rparr>,
               \<lparr>pc_page = ''/new'', pc_prev = Val (entryJson zeroEntry),
                pc_curr = Val (entryJson \<lparr>raw = 40, gzip = 12\<rparr>),
                pc_delta_raw = Fin 40, pc_delta_gzip = Fin 12\<rparr>],
            newRoutes = [''/about''],
            removedRoutes = []\<rparr>"
proof -
  have a: "''__files'' \<notin> fst ` set [(''/same'', \<lparr>raw = 7, gzip = 3\<rparr>)]" by simp
  have b: "''__pages'' \<notin> fst ` set [(''/same'', \<lparr>raw = 7, gzip = 3\<rparr>)]" by simp
  have c: "''__routes'' \<notin> fst ` set [(''/same'', \<lparr>raw = 7, gzip = 3\<rparr>)]" by simp
  have d: "''__proto__'' \<notin> fst ` set [(''/same'', \<lparr>raw = 7, gzip = 3\<rparr>)]" by simp
  have f: "distinct (map fst (o_files exampleCur))" by (simp add: exampleCur_def)
  have p: "distinct (map fst (o_pages exampleCur))" by (simp add: exampleCur_def)
  have r: "distinct (map fst (o_routes exampleCur))" by (simp add: exampleCur_def)
  have nf: "\<forall>k \<in> set (map fst (o_files exampleCur)). k \<notin> set objectProtoNames"
    by (simp add: exampleCur_def objectProtoNames_def)
  have np: "\<forall>k \<in> set (map fst (o_pages exampleCur)). k \<notin> set objectProtoNames"
    by (simp add: exampleCur_def objectProtoNames_def)
  have e: "logDiffs (Some (compatJson \<lparr>raw = 100, gzip = 40\<rparr> [(''/same'', \<lparr>raw = 7, gzip = 3\<rparr>)]))
         exampleCur =
       Inr \<lparr>delta_global = (Fin 50, Fin 15),
            changedFiles = [],
            newFiles = [\<lparr>nf_file = ''b.js'', nf_curr = Val (entryJson \<lparr>raw = 300, gzip = 120\<rparr>)\<rparr>],
            removedFiles = [],
            pageChanges =
              [\<lparr>pc_page = ''/same'', pc_prev = Val (entryJson zeroEntry),
                pc_curr = Val (entryJson \<lparr>raw = 7, gzip = 3\<rparr>),
                pc_delta_raw = Fin 7, pc_delta_gzip = Fin 3\<rparr>,
               \<lparr>pc_page = ''/new'', pc_prev = Val (entryJson zeroEntry),
                pc_curr = Val (entryJson \<lparr>raw = 40, gzip = 12\<rparr>),
                pc_delta_raw = Fin 40, pc_delta_gzip = Fin 12\<rparr>],
            newRoutes = [''/about''],
            removedRoutes = []\<rparr>"
    by code_simp
  from compat_previous_is_first_run [OF a b c d f p r nf np, of "\<lparr>raw = 100, gzip = 40\<rparr>"] e
  show ?thesis by (simp add: exampleCur_def objectProtoNames_def)
qed

text \<open>
  C4 as stated fails for a page named \<open>__files\<close>: the compat document then has a
  \<open>__files\<close> key, the next run reads that page's size entry as its previous file map,
  and reports the files \<open>raw\<close> and \<open>gzip\<close> as removed. A page named \<open>__pages\<close>
  or \<open>__routes\<close> is read in the same way as the previous pages or routes.
\<close>

theorem compat_reserved_page_key_counterexample:
  "''__files'' \<in> set (objectKeys (compatJson \<lparr>raw = 100, gzip = 40\<rparr>
                                     [(''__files'', \<lparr>raw = 5, gzip = 3\<rparr>)]))
   \<and> prevFilesOf (Some (compatJson \<lparr>raw = 100, gzip = 40\<rparr> [(''__files'', \<lparr>raw = 5, gzip = 3\<rparr>)]))
        = Obj [(''raw'', Num 5), (''gzip'', Num 3)]
   \<and> (case logDiffs (Some (compatJson \<lparr>raw = 100, gzip = 40\<rparr>
                                     [(''__files'', \<lparr>raw = 5, gzip = 3\<rparr>)])) exampleCur of
         Inr d \<Rightarrow> removedFiles d = [\<lparr>rf_file = ''raw'', rf_prev = Val (Num 5)\<rparr>,
                                  \<lparr>rf_file = ''gzip'', rf_prev = Val (Num 3)\<rparr>]
       | Inl e \<Rightarrow> False)
   \<and> (case logDiffs (Some (compatJson \<lparr>raw = 100, gzip = 40\<rparr>
                                     [(''__pages'', \<lparr>raw = 5, gzip = 3\<rparr>)])) exampleCur of
         Inr d \<Rightarrow> map pc_page (pageChanges d) = [''raw'', ''gzip'', ''/same'', ''/new'']
       | Inl e \<Rightarrow> False)
   \<and> (case logDiffs (Some (compatJson \<lparr>raw = 100, gzip = 40\<rparr>
                                     [(''__routes'', \<lparr>raw = 5, gzip = 3\<rparr>)])) exampleCur of
         Inr d \<Rightarrow> removedRoutes d = [''raw'', ''gzip'']
       | Inl e \<Rightarrow> False)"
  by code_simp


subsection \<open>Keys inherited from the prototype\<close>

text \<open>
  C2. The claim fails on the code for a file key that objects inherit from
  \<open>Object.prototype\<close>. Here the previous document is a compat document, so the
  previous files are \<open>{}\<close>, and the current files are \<open>constructor\<close> and
  \<open>p.js\<close>. Both are present in the current files only; \<open>p.js\<close> is listed as new,
  but for \<open>constructor\<close> the read \<open>prevFiles[key]\<close> finds the inherited function,
  which is truthy, and the file is listed as changed with \<open>NaN\<close> deltas.
\<close>

theorem file_pass_inherited_key:
  "logDiffs compatPrev inheritedCur =
     Inr \<lparr>delta_global = (Fin 1, Fin 0),
          changedFiles =
            [\<lparr>cf_file = ''constructor'', cf_prev = Builtin,
              cf_curr = Val (entryJson \<lparr>raw = 2, gzip = 1\<rparr>),
              cf_delta_raw = NaN, cf_delta_gzip = NaN\<rparr>],
          newFiles = [\<lparr>nf_file = ''p.js'', nf_curr = Val (entryJson \<lparr>raw = 5, gzip = 3\<rparr>)\<rparr>],
          removedFiles = [],
          pageChanges =
            [\<lparr>pc_page = ''constructor'', pc_prev = Builtin,
              pc_curr = Val (entryJson \<lparr>raw = 5, gzip = 3\<rparr>),
              pc_delta_raw = NaN, pc_delta_gzip = NaN\<rparr>],
          newRoutes = [],
          removedRoutes = []\<rparr>"
  by code_simp

text \<open>
  C3. The claim fails on the code for a current file named \<open>constructor\<close>: with no
  previous document the previous files are \<open>{}\<close>, but \<open>{}[key]\<close> finds the
  inherited function, so the file is not treated as new against an empty previous side
  as \<open>p.js\<close> is: it is listed as changed, with \<open>NaN\<close> deltas. No error is raised.
\<close>

theorem absent_previous_inherited_key:
  "prevFilesOf None = Obj []
   \<and> (case logDiffs None inheritedCur of
         Inr d \<Rightarrow> newFiles d =
                     [\<lparr>nf_file = ''p.js'', nf_curr = Val (entryJson \<lparr>raw = 5, gzip = 3\<rparr>)\<rparr>]
                 \<and> changedFiles d =
                     [\<lparr>cf_file = ''constructor'', cf_prev = Builtin,
                       cf_curr = Val (entryJson \<lparr>raw = 2, gzip = 1\<rparr>),
                       cf_delta_raw = NaN, cf_delta_gzip = NaN\<rparr>]
       | Inl e \<Rightarrow> False)"
  by code_simp

text \<open>
  C5. The claim fails on the code for a page key that objects inherit from
  \<open>Object.prototype\<close>. A page named \<open>constructor\<close> that only the current analysis
  has is not compared with (0, 0): \<open>prevPages[key]\<close> finds the inherited function, the
  deltas are \<open>NaN\<close>, and the page is listed even when its own sizes are (0, 0).
\<close>

theorem page_pass_inherited_key:
  "(case logDiffs compatPrev inheritedCur of
      Inr d \<Rightarrow> pageChanges d =
                 [\<lparr>pc_page = ''constructor'', pc_prev = Builtin,
                   pc_curr = Val (entryJson \<lparr>raw = 5, gzip = 3\<rparr>),
                   pc_delta_raw = NaN, pc_delta_gzip = NaN\<rparr>]
    | Inl e \<Rightarrow> False)
   \<and> (case logDiffs compatPrev (inheritedCur\<lparr>o_pages := [(''constructor'', zeroEntry)],
                                          o_files := [(''constructor'', \<lparr>raw = 2, gzip = 1\<rparr>)]\<rparr>) of
      Inr d \<Rightarrow> pageChanges d =
                 [\<lparr>pc_page = ''constructor'', pc_prev = Builtin,
                   pc_curr = Val (entryJson zeroEntry),
                   pc_delta_raw = NaN, pc_delta_gzip = NaN\<rparr>]
    | Inl e \<Rightarrow> False)"
  by code_simp



section \<open>Properties of the review comment and of the listings\<close>

lemma rowLoop_no_current:
  assumes "\<forall>k \<in> set keys. k \<notin> set objectProtoNames"
  shows "\<exists>removed. rowLoop (Obj []) bf keys (ch, ad, rm) = Inr (ch, ad, removed)"
  using assms by (induction keys arbitrary: rm) (simp_all add: classifyRow_def Let_def)

lemma truthy_compatJson: "truthy (compatJson g allSizes)"
  by (simp add: compatJson_def)

text \<open>
  C10 (amended). The script takes the primary document where it is truthy, for the
  current and for the base side alike. Provided no page is named \<open>__files\<close>, a primary
  compat document gives an empty file map. With it as the current document, and provided
  no base file has a name that objects inherit from \<open>Object.prototype\<close>, the loop
  leaves the changed and added rows empty and only base files can be listed, as removed,
  whatever the extended document holds; the comment is written with these tables unless
  rendering a removed row throws. With no current document at all the script exits before
  it writes.
\<close>

theorem comment_uses_primary_document:
  assumes "''__files'' \<notin> fst ` set allSizes"
    and "\<forall>k \<in> set (objectKeys (baseFilesOf (orDoc basePrimary baseExtended))).
           k \<notin> set objectProtoNames"
  shows "orDoc (Some (compatJson g allSizes)) extended = Some (compatJson g allSizes)
       \<and> currFilesOf (Some (compatJson g allSizes)) = Obj []
       \<and> baseFilesOf (Some (compatJson g allSizes)) = Obj []
       \<and> (\<exists>removed.
             rowsOf (Some (compatJson g allSizes)) (orDoc basePrimary baseExtended)
               = Inr ([], [], removed)
           \<and> appendExtendedBundleComment (Some (compatJson g allSizes)) extended
                 basePrimary baseExtended
               = (if tableThrows removed then Inl TypeError
                  else Inr (Comment (Sorted []) [] removed)))
       \<and> appendExtendedBundleComment None None basePrimary baseExtended = Inr ExitWithoutWriting"
proof -
  let ?doc = "Some (compatJson g allSizes)"
  let ?bf = "baseFilesOf (orDoc basePrimary baseExtended)"
  have sel: "orDoc ?doc extended = ?doc"
    by (simp add: orDoc_def truthy_compatJson)
  have cf: "currFilesOf ?doc = Obj []"
    using assms(1) by (simp add: currFilesOf_def docMember_compatJson_None)
  have bf: "baseFilesOf ?doc = Obj []"
    using assms(1) by (simp add: baseFilesOf_def truthy_compatJson docMember_compatJson_None)
  have "\<forall>k \<in> set (newSet (objectKeys (Obj []) @ objectKeys ?bf)). k \<notin> set objectProtoNames"
    using assms(2) by simp
  from rowLoop_no_current [OF this] obtain removed where loop:
    "rowLoop (Obj []) ?bf (newSet (objectKeys (Obj []) @ objectKeys ?bf)) ([], [], [])
       = Inr ([], [], removed)"
    by blast
  have rows: "rowsOf ?doc (orDoc basePrimary baseExtended) = Inr ([], [], removed)"
    unfolding rowsOf_def Let_def cf loop by simp
  have run: "appendExtendedBundleComment ?doc extended basePrimary baseExtended
               = (if tableThrows removed then Inl TypeError
                  else Inr (Comment (Sorted []) [] removed))"
    unfolding appendExtendedBundleComment_def Let_def sel rows
    by (simp add: truthy_compatJson sortChanged_def tableThrows_def)
  have none: "appendExtendedBundleComment None None basePrimary baseExtended = Inr ExitWithoutWriting"
    by (simp add: appendExtendedBundleComment_def orDoc_def)
  from sel cf bf rows run none show ?thesis by blast
qed

theorem comment_uses_primary_document_witness:
  "''__files'' \<notin> fst ` set [(''/page'', \<lparr>raw = 7, gzip = 3\<rparr>)]
   \<and> objectKeys (baseFilesOf (orDoc None (Some (tiedDoc ''a.js'' ''b.js'' 10)))) = [''a.js'', ''b.js'']
   \<and> ''a.js'' \<notin> set objectProtoNames \<and> ''b.js'' \<notin> set objectProtoNames
   \<and> appendExtendedBundleComment
        (Some (compatJson \<lparr>raw = 100, gzip = 40\<rparr> [(''/page'', \<lparr>raw = 7, gzip = 3\<rparr>)]))
        (Some (tiedDoc ''a.js'' ''b.js'' 20)) None (Some (tiedDoc ''a.js'' ''b.js'' 10))
      = Inr (Comment (Sorted []) []
          [\<lparr>r_file = ''a.js'', r_raw = Some (Num 10), r_gzip = Some (Num 10)\<rparr>,
           \<lparr>r_file = ''b.js'', r_raw = Some (Num 10), r_gzip = Some (Num 10)\<rparr>])"
proof -
  have h: "''__files'' \<notin> fst ` set [(''/page'', \<lparr>raw = 7, gzip = 3\<rparr>)]" by simp
  have k: "objectKeys (baseFilesOf (orDoc None (Some (tiedDoc ''a.js'' ''b.js'' 10)))) = [''a.js'', ''b.js'']"
    by code_simp
  have n: "''a.js'' \<notin> set objectProtoNames \<and> ''b.js'' \<notin> set objectProtoNames"
    by (simp add: objectProtoNames_def)
  have b: "\<forall>k \<in> set (objectKeys (baseFilesOf (orDoc None (Some (tiedDoc ''a.js'' ''b.js'' 10))))).
             k \<notin> set objectProtoNames"
    using n by (simp add: k)
  have e: "appendExtendedBundleComment
        (Some (compatJson \<lparr>raw = 100, gzip = 40\<rparr> [(''/page'', \<lparr>raw = 7, gzip = 3\<rparr>)]))
        (Some (tiedDoc ''a.js'' ''b.js'' 20)) None (Some (tiedDoc ''a.js'' ''b.js'' 10))
      = Inr (Comment (Sorted []) []
          [\<lparr>r_file = ''a.js'', r_raw = Some (Num 10), r_gzip = Some (Num 10)\<rparr>,
           \<lparr>r_file = ''b.js'', r_raw = Some (Num 10), r_gzip = Some (Num 10)\<rparr>])"
    by code_simp
  from comment_uses_primary_document [OF h b] h k n e show ?thesis by simp
qed

text \<open>
  C10 as stated fails for a page named \<open>__files\<close>: the primary compat document then
  has a \<open>__files\<close> key, the current file map is that page's size entry, and the added
  table lists \<open>raw\<close> and \<open>gzip\<close>.
\<close>

theorem comment_reserved_page_key_counterexample:
  "currFilesOf (orDoc (Some (compatJson \<lparr>raw = 100, gzip = 40\<rparr> [(''__files'', \<lparr>raw = 5, gzip = 3\<rparr>)]))
                      None)
     = Obj [(''raw'', Num 5), (''gzip'', Num 3)]
   \<and> appendExtendedBundleComment
        (Some (compatJson \<lparr>raw = 100, gzip = 40\<rparr> [(''__files'', \<lparr>raw = 5, gzip = 3\<rparr>)]))
        None None None
      = Inr (Comment (Sorted [])
          [\<lparr>r_file = ''raw'', r_raw = None, r_gzip = None\<rparr>,
           \<lparr>r_file = ''gzip'', r_raw = None, r_gzip = None\<rparr>] [])"
  by code_simp

subsection \<open>The order of the listings\<close>


















end
